theory Spec2Isabelle
  imports Main "HOL-Library.Word"
begin

unbundle bit_operations_syntax

section \<open>Strings, bytes and code points\<close>

text \<open>
  A Go \<open>string\<close> is a sequence of bytes, here a \<open>string\<close> (a list of 8-bit
  characters); \<open>len\<close> is \<open>length\<close>. A \<open>rune\<close> is an \<open>int32\<close>; the runes
  that decoding produces lie in \<open>0 .. 0x10FFFF\<close>, so a rune is a \<open>nat\<close>.
\<close>

type_synonym rune = nat

definition byte_val :: "char \<Rightarrow> nat" where
  "byte_val c = of_char c"

definition RuneError :: rune where
  "RuneError = 0xFFFD"

definition is_cont :: "char \<Rightarrow> bool" where
  \<comment> \<open>\<open>locb <= b && b <= hicb\<close>: a continuation byte \<open>10xxxxxx\<close>\<close>
  "is_cont b = (0x80 \<le> byte_val b \<and> byte_val b \<le> 0xBF)"

text \<open>
  \<open>decoderune\<close> of the Go runtime (with the single-byte fast path of the \<open>range\<close>
  loop): the rune that starts the string and the number of bytes it takes. A byte
  sequence that is no valid UTF-8 decodes to \<open>RuneError\<close> of width 1.
\<close>

definition decoderune :: "string \<Rightarrow> rune \<times> nat" where
  "decoderune s =
     (case s of
        [] \<Rightarrow> (RuneError, 1)
      | b0 # s1 \<Rightarrow>
          let c0 = byte_val b0 in
          if c0 < 0x80 then (c0, 1)
          else if 0xC0 \<le> c0 \<and> c0 < 0xE0 then
            (case s1 of
               b1 # _ \<Rightarrow>
                 if is_cont b1 then
                   let r = (c0 mod 32) * 64 + byte_val b1 mod 64
                   in if 0x7F < r then (r, 2) else (RuneError, 1)
                 else (RuneError, 1)
             | _ \<Rightarrow> (RuneError, 1))
          else if 0xE0 \<le> c0 \<and> c0 < 0xF0 then
            (case s1 of
               b1 # b2 # _ \<Rightarrow>
                 if is_cont b1 \<and> is_cont b2 then
                   let r = (c0 mod 16) * 4096 + (byte_val b1 mod 64) * 64 + byte_val b2 mod 64
                   in if 0x7FF < r \<and> \<not> (0xD800 \<le> r \<and> r \<le> 0xDFFF) then (r, 3)
                      else (RuneError, 1)
                 else (RuneError, 1)
             | _ \<Rightarrow> (RuneError, 1))
          else if 0xF0 \<le> c0 \<and> c0 < 0xF8 then
            (case s1 of
               b1 # b2 # b3 # _ \<Rightarrow>
                 if is_cont b1 \<and> is_cont b2 \<and> is_cont b3 then
                   let r = (c0 mod 8) * 262144 + (byte_val b1 mod 64) * 4096
                           + (byte_val b2 mod 64) * 64 + byte_val b3 mod 64
                   in if 0xFFFF < r \<and> r \<le> 0x10FFFF then (r, 4) else (RuneError, 1)
                 else (RuneError, 1)
             | _ \<Rightarrow> (RuneError, 1))
          else (RuneError, 1))"

text \<open>
  \<open>for i, c := range f\<close>: the pairs (byte index of the rune's first byte, rune), in
  order. The next rune starts \<open>width\<close> bytes further on.
\<close>

fun range_from :: "nat \<Rightarrow> string \<Rightarrow> (nat \<times> rune) list" where
  "range_from i [] = []"
| "range_from i (b # bs) =
     (i, fst (decoderune (b # bs)))
       # range_from (i + snd (decoderune (b # bs))) (drop (snd (decoderune (b # bs)) - 1) bs)"

definition range_str :: "string \<Rightarrow> (nat \<times> rune) list" where
  "range_str f = range_from 0 f"

definition runes :: "string \<Rightarrow> rune list" where
  \<comment> \<open>\<open>for _, c := range f\<close>\<close>
  "runes f = map snd (range_str f)"

text \<open>
  \<open>utf8.AppendRune\<close>, as \<open>string([]rune)\<close> and \<open>strings.Map\<close> write a rune: a
  surrogate or a value above \<open>0x10FFFF\<close> is written as \<open>RuneError\<close>.
\<close>

definition encoderune :: "rune \<Rightarrow> string" where
  "encoderune r =
     (if r < 0x80 then [char_of r]
      else if r < 0x800 then [char_of (0xC0 + r div 64), char_of (0x80 + r mod 64)]
      else if 0x10FFFF < r \<or> (0xD800 \<le> r \<and> r \<le> 0xDFFF) then
        [char_of (0xEF::nat), char_of (0xBF::nat), char_of (0xBD::nat)]
      else if r < 0x10000 then
        [char_of (0xE0 + r div 4096), char_of (0x80 + (r div 64) mod 64),
         char_of (0x80 + r mod 64)]
      else
        [char_of (0xF0 + r div 262144), char_of (0x80 + (r div 4096) mod 64),
         char_of (0x80 + (r div 64) mod 64), char_of (0x80 + r mod 64)])"

definition string_of_runes :: "rune list \<Rightarrow> string" where
  "string_of_runes rs = concat (map encoderune rs)"

section \<open>Fingerprints\<close>

text \<open>\<open>fmt.Sprintf("%04X", ck)\<close> of a \<open>uint16\<close>, \<open>"%02X"\<close> of a \<open>uint8\<close>.\<close>

definition hexdigit :: "nat \<Rightarrow> char" where
  "hexdigit n = (if n < 10 then char_of (48 + n) else char_of (55 + n))"

definition hex4 :: "16 word \<Rightarrow> string" where
  "hex4 w = map (\<lambda>k. hexdigit (unat (drop_bit k w AND 0xF))) [12, 8, 4, 0]"

definition hex2 :: "8 word \<Rightarrow> string" where
  "hex2 w = map (\<lambda>k. hexdigit (unat (drop_bit k w AND 0xF))) [4, 0]"

definition is_upper_hex :: "char \<Rightarrow> bool" where
  "is_upper_hex c = (c \<in> set ''0123456789ABCDEF'')"

definition swap_nibbles :: "16 word \<Rightarrow> 16 word" where
  \<comment> \<open>\<open>(ck&0xf000)>>12 | (ck&0x0f00)>>4 | (ck&0x00f0)<<4 | (ck&0x000f)<<12\<close>\<close>
  "swap_nibbles ck =
     drop_bit 12 (ck AND 0xF000) OR drop_bit 4 (ck AND 0x0F00)
       OR push_bit 4 (ck AND 0x00F0) OR push_bit 12 (ck AND 0x000F)"

subsection \<open>The modern algorithm\<close>

text \<open>
  \<open>int32(math.Abs(float64(x)))\<close> for an \<open>int32\<close> \<open>x\<close>: every \<open>int32\<close> is a
  \<open>float64\<close> exactly, so this is the absolute value computed without rounding.
  At \<open>x = -2^31\<close> the absolute value is no \<open>int32\<close> and Go leaves the conversion
  to the platform (amd64 gives \<open>-2^31\<close>, as the wrapping negation here does);
  \<open>Checksum\<close> never reaches that value (lemma \<open>Checksum_product_not_min\<close>).
\<close>

definition abs_int32 :: "32 word \<Rightarrow> 32 word" where
  "abs_int32 x = (if sint x < 0 then - x else x)"

definition Checksum_step :: "16 word \<Rightarrow> rune \<Rightarrow> 16 word" where
  \<comment> \<open>\<open>ck = ck*0x25 + uint16(c)\<close>\<close>
  "Checksum_step ck c = ck * 0x25 + of_nat c"

definition Checksum_mix :: "16 word \<Rightarrow> 16 word" where
  "Checksum_mix ck =
     (let t0 = abs_int32 ((ucast ck :: 32 word) * 314159269);
          t = t0 - (ucast (drop_bit 60 ((scast t0 :: 64 word) * 1152921497) * 1000000007)
                     :: 32 word)
      in swap_nibbles (ucast t))"

definition Checksum :: "string \<Rightarrow> string" where
  "Checksum f = hex4 (Checksum_mix (foldl Checksum_step 0 (runes f)))"

subsection \<open>The legacy byte-pair algorithm\<close>

datatype go_panic = IndexOutOfRange

definition uint16_of_byte :: "char \<Rightarrow> 16 word" where
  "uint16_of_byte b = of_nat (byte_val b)"

text \<open>
  The loop \<open>for i := 2; i < len(f); i += 2\<close>. Both reads are in range:
  \<open>f[i]\<close> under the loop condition, \<open>f[i+1]\<close> under its own test.
\<close>

function ChecksumOriginal_loop :: "string \<Rightarrow> nat \<Rightarrow> 16 word \<Rightarrow> 16 word" where
  "ChecksumOriginal_loop f i ck =
     (if i < length f then
        let ck1 = (if ck AND 1 = 1
                   then 0x8000 + drop_bit 1 ck + push_bit 8 (uint16_of_byte (f ! i))
                   else drop_bit 1 ck + push_bit 8 (uint16_of_byte (f ! i)));
            ck2 = (if i + 1 < length f
                   then ck1 + (uint16_of_byte (f ! (i + 1)) AND 0xFFFF)
                   else ck1)
        in ChecksumOriginal_loop f (i + 2) ck2
      else ck)"
  by pat_completeness auto
termination
  by (relation "measure (\<lambda>(f, i, ck). length f - i)") auto

declare ChecksumOriginal_loop.simps [simp del]

text \<open>
  \<open>f[0]\<close> and \<open>f[1]\<close> are read with no test of the length: on a string shorter than
  two bytes the read panics (\<open>runtime error: index out of range\<close>).
\<close>

definition ChecksumOriginal :: "string \<Rightarrow> go_panic + string" where
  "ChecksumOriginal f =
     (if \<not> 0 < length f then Inl IndexOutOfRange
      else if \<not> 1 < length f then Inl IndexOutOfRange
      else
        let ck = (push_bit 8 (uint16_of_byte (f ! 0)) + uint16_of_byte (f ! 1)) AND 0xFFFF
        in Inr (hex4 (swap_nibbles (ChecksumOriginal_loop f 2 ck))))"

subsection \<open>The byte-sum, weighted and rotating-sum algorithms\<close>

definition ChecksumWin95 :: "string \<Rightarrow> string" where
  \<comment> \<open>\<open>sum += uint8(c)\<close>\<close>
  "ChecksumWin95 f = hex2 (foldl (\<lambda>acc c. acc + of_nat c) 0 (runes f))"

definition ChecksumNT_step :: "16 word \<Rightarrow> nat \<times> rune \<Rightarrow> 16 word" where
  \<comment> \<open>\<open>sum += uint16(c) * uint16(i+1)\<close>, \<open>i\<close> the index that \<open>range\<close> yields\<close>
  "ChecksumNT_step acc ic = acc + of_nat (snd ic) * of_nat (fst ic + 1)"

definition ChecksumNT :: "string \<Rightarrow> string" where
  "ChecksumNT f = hex4 (foldl ChecksumNT_step 0 (range_str f) XOR 0xA5A5)"

definition ChecksumFAT32 :: "string \<Rightarrow> string" where
  \<comment> \<open>\<open>sum = ((sum >> 1) | (sum << 7)) + uint8(c)\<close>\<close>
  "ChecksumFAT32 f =
     hex2 (foldl (\<lambda>acc c. (drop_bit 1 acc OR push_bit 7 acc) + of_nat c) 0 (runes f))"

section \<open>Case mapping and Unicode folding\<close>

text \<open>
  The Unicode data that the code reaches through its libraries is a parameter of the
  model: the case tables of package \<open>unicode\<close> for runes above \<open>MaxASCII\<close>,
  \<open>norm.NFD.String\<close> of \<open>golang.org/x/text\<close>, and membership in the range table
  \<open>unicode.Mn\<close>.
\<close>

record unicode_tables =
  to_upper :: "rune \<Rightarrow> rune"
  to_lower :: "rune \<Rightarrow> rune"
  nfd_string :: "string \<Rightarrow> string"
  is_Mn :: "rune \<Rightarrow> bool"

definition is_ascii :: "string \<Rightarrow> bool" where
  "is_ascii s = list_all (\<lambda>c. byte_val c < 0x80) s"

definition unicode_ToUpper :: "unicode_tables \<Rightarrow> rune \<Rightarrow> rune" where
  "unicode_ToUpper U r =
     (if r \<le> 0x7F then (if 0x61 \<le> r \<and> r \<le> 0x7A then r - 0x20 else r)
      else to_upper U r)"

definition unicode_ToLower :: "unicode_tables \<Rightarrow> rune \<Rightarrow> rune" where
  "unicode_ToLower U r =
     (if r \<le> 0x7F then (if 0x41 \<le> r \<and> r \<le> 0x5A then r + 0x20 else r)
      else to_lower U r)"

definition strings_Map :: "(rune \<Rightarrow> rune) \<Rightarrow> string \<Rightarrow> string" where
  \<comment> \<open>\<open>strings.Map\<close>: every rune mapped and written again; an invalid byte is read as
      \<open>RuneError\<close> and written as its three-byte encoding\<close>
  "strings_Map m s = string_of_runes (map m (runes s))"

definition ToUpper :: "unicode_tables \<Rightarrow> string \<Rightarrow> string" where
  \<comment> \<open>\<open>strings.ToUpper\<close>: a bytewise path for ASCII-only strings, \<open>Map\<close> otherwise\<close>
  "ToUpper U s =
     (if is_ascii s
      then map (\<lambda>c. if 0x61 \<le> byte_val c \<and> byte_val c \<le> 0x7A
                      then char_of (byte_val c - 0x20) else c) s
      else strings_Map (unicode_ToUpper U) s)"

definition ToLower :: "unicode_tables \<Rightarrow> string \<Rightarrow> string" where
  "ToLower U s =
     (if is_ascii s
      then map (\<lambda>c. if 0x41 \<le> byte_val c \<and> byte_val c \<le> 0x5A
                      then char_of (byte_val c + 0x20) else c) s
      else strings_Map (unicode_ToLower U) s)"

text \<open>The loop of \<open>ToASCII\<close> over the runes of the normalised string.\<close>

fun ToASCII_loop :: "unicode_tables \<Rightarrow> rune list \<Rightarrow> rune list \<Rightarrow> rune list" where
  "ToASCII_loop U ascii [] = ascii"
| "ToASCII_loop U ascii (r # rs) =
     (if is_Mn U r then ToASCII_loop U ascii rs
      else if 127 < r then ToASCII_loop U ascii rs
      else ToASCII_loop U (ascii @ [r]) rs)"

definition ToASCII :: "unicode_tables \<Rightarrow> string \<Rightarrow> string" where
  "ToASCII U s = string_of_runes (ToASCII_loop U [] (runes (nfd_string U s)))"

section \<open>The 8.3 short name\<close>


definition shortReplacer :: "string \<Rightarrow> string" where
  \<comment> \<open>a \<open>strings.Replacer\<close> whose old strings are single bytes: each byte is replaced on
      its own; space and dot by nothing, \<open>: + , ; = [ ]\<close> by an underscore\<close>
  "shortReplacer s =
     concat (map (\<lambda>c. if c = CHR '' '' \<or> c = CHR ''.'' then []
                       else if c \<in> set '':+,;=[]'' then ''_''
                       else [c]) s)"

definition maths_Min :: "nat \<Rightarrow> nat \<Rightarrow> nat" where
  \<comment> \<open>Modelled from the spec: \<open>maths.Min\<close> of this repository's package \<open>pkg/maths\<close> is
      not among the sources. The spec has the substituted name truncated to at most 6 and
      the extension to at most 3 characters, shorter strings passing through unchanged:
      the smaller of the two arguments.\<close>
  "maths_Min a b = (if a < b then a else b)"

definition Gen8dot3 :: "unicode_tables \<Rightarrow> string \<Rightarrow> string \<Rightarrow> bool \<times> string \<times> string" where
  "Gen8dot3 U file ext =
     (let fu = ToUpper U file;
          fr = shortReplacer fu;
          eu = ToUpper U ext;
          er = shortReplacer eu;
          r = (8 < length file \<or> 3 < length ext \<or> fu \<noteq> fr \<or> eu \<noteq> er)
      in (r, take (maths_Min (length fr) 6) fr, take (maths_Min (length er) 3) er))"

definition Gen8dot3Unicode ::
    "unicode_tables \<Rightarrow> string \<Rightarrow> string \<Rightarrow> bool \<times> string \<times> string" where
  "Gen8dot3Unicode U file ext =
     (let fu = ToUpper U file;
          fr = ToASCII U (shortReplacer fu);
          eu = ToUpper U ext;
          er = ToASCII U (shortReplacer eu);
          r = (8 < length file \<or> 3 < length ext \<or> fu \<noteq> fr \<or> eu \<noteq> er)
      in (r, take (maths_Min (length fr) 6) fr, take (maths_Min (length er) 3) er))"

section \<open>The variant expander\<close>

definition turkish_table :: "(string \<times> string) list" where
  \<comment> \<open>the pairs of the \<open>turkish\<close> replacer: the UTF-8 bytes of each letter and its
      replacement\<close>
  "turkish_table =
     [([CHR 0xC4, CHR 0xB1], ''i''), ([CHR 0xC4, CHR 0xB0], ''I''),
      ([CHR 0xC3, CHR 0xB6], ''o''), ([CHR 0xC3, CHR 0x96], ''O''),
      ([CHR 0xC3, CHR 0xBC], ''u''), ([CHR 0xC3, CHR 0x9C], ''U''),
      ([CHR 0xC5, CHR 0x9F], ''s''), ([CHR 0xC5, CHR 0x9E], ''S''),
      ([CHR 0xC4, CHR 0x9F], ''g''), ([CHR 0xC4, CHR 0x9E], ''G''),
      ([CHR 0xC3, CHR 0xA7], ''c''), ([CHR 0xC3, CHR 0x87], ''C'')]"

text \<open>
  \<open>turkish.Replace\<close>: the string is scanned from the left; where one of the two-byte
  keys starts, its replacement is written and the scan goes on behind the key.
\<close>

fun turkish_Replace :: "string \<Rightarrow> string" where
  "turkish_Replace (a # b # s) =
     (case map_of turkish_table [a, b] of
        Some t \<Rightarrow> t @ turkish_Replace s
      | None \<Rightarrow> a # turkish_Replace (b # s))"
| "turkish_Replace s = s"

definition nonAlphanum_delete :: "string \<Rightarrow> string" where
  \<comment> \<open>\<open>nonAlphanum.ReplaceAllString(s, "")\<close> for \<open>[^a-zA-Z0-9_.-]\<close>: every rune outside
      the class is deleted, so the bytes of the class are what remains\<close>
  "nonAlphanum_delete s =
     filter (\<lambda>c. (0x61 \<le> byte_val c \<and> byte_val c \<le> 0x7A)
                 \<or> (0x41 \<le> byte_val c \<and> byte_val c \<le> 0x5A)
                 \<or> (0x30 \<le> byte_val c \<and> byte_val c \<le> 0x39)
                 \<or> c = CHR ''_'' \<or> c = CHR ''.'' \<or> c = CHR ''-'') s"

text \<open>
  The keys of the map \<open>variants\<close>, without the empty string. Go iterates over a map in
  no fixed order; the model lists every key once, in one fixed order.
\<close>

definition GenerateVariants :: "unicode_tables \<Rightarrow> string \<Rightarrow> string list" where
  "GenerateVariants U s =
     filter (\<lambda>v. 0 < length v)
       (remdups [s, ToLower U s, ToUpper U s, ToASCII U s, turkish_Replace s,
                 nonAlphanum_delete s])"

section \<open>The wordlist pipeline\<close>

record wordlistRecord =
  checksum :: string
  filename :: string
  extension :: string
  filename83 :: string
  extension83 :: string

subsection \<open>Library functions of the sanitising steps\<close>

datatype EscapeError = EscapeError string

definition ishex :: "char \<Rightarrow> bool" where
  "ishex c =
     ((0x30 \<le> byte_val c \<and> byte_val c \<le> 0x39) \<or> (0x61 \<le> byte_val c \<and> byte_val c \<le> 0x66)
      \<or> (0x41 \<le> byte_val c \<and> byte_val c \<le> 0x46))"

definition unhex :: "char \<Rightarrow> nat" where
  "unhex c =
     (if 0x30 \<le> byte_val c \<and> byte_val c \<le> 0x39 then byte_val c - 0x30
      else if 0x61 \<le> byte_val c \<and> byte_val c \<le> 0x66 then byte_val c - 0x61 + 10
      else if 0x41 \<le> byte_val c \<and> byte_val c \<le> 0x46 then byte_val c - 0x41 + 10
      else 0)"

text \<open>
  \<open>url.PathUnescape\<close> runs over the string twice. The first pass looks for a \<open>%\<close> that
  is not followed by two hexadecimal digits and returns the offending piece (at most
  three bytes); the second pass, reached only without such a piece, writes the result.
\<close>

fun unescape_check :: "string \<Rightarrow> string option" where
  "unescape_check [] = None"
| "unescape_check (c # s) =
     (if c = CHR ''%'' then
        (case s of
           h1 # h2 # rest \<Rightarrow>
             if ishex h1 \<and> ishex h2 then unescape_check rest else Some (take 3 (c # s))
         | _ \<Rightarrow> Some (take 3 (c # s)))
      else unescape_check s)"

fun unescape_write :: "string \<Rightarrow> string" where
  "unescape_write [] = []"
| "unescape_write (c # s) =
     (if c = CHR ''%'' then
        (case s of
           h1 # h2 # rest \<Rightarrow> char_of (unhex h1 * 16 + unhex h2) # unescape_write rest
         | _ \<Rightarrow> [])
      else c # unescape_write s)"

text \<open>
  The pair that \<open>PathUnescape\<close> returns: with an error, the string is empty
  (\<open>return "", EscapeError(s)\<close>).
\<close>

definition PathUnescape :: "string \<Rightarrow> string \<times> EscapeError option" where
  "PathUnescape s =
     (case unescape_check s of
        Some bad \<Rightarrow> ([], Some (EscapeError bad))
      | None \<Rightarrow> (unescape_write s, None))"

definition path_Base :: "string \<Rightarrow> string" where
  \<comment> \<open>\<open>path.Base\<close>: trailing slashes stripped, then the element behind the last slash\<close>
  "path_Base p =
     (if p = [] then ''.''
      else
        let p1 = rev (dropWhile (\<lambda>c. c = CHR ''/'') (rev p));
            p2 = rev (takeWhile (\<lambda>c. c \<noteq> CHR ''/'') (rev p1))
        in if p2 = [] then ''/'' else p2)"

definition paramRegex_first :: "string \<Rightarrow> string" where
  \<comment> \<open>\<open>paramRegex.Split(w, 2)[0]\<close> for the package's \<open>paramRegex\<close>, \<open>[?;#&\r\n]\<close>:
      the string up to the first of these bytes\<close>
  "paramRegex_first w =
     takeWhile (\<lambda>c. c \<notin> set [CHR ''?'', CHR '';'', CHR ''#'', CHR ''&'', CHR 0x0D, CHR 0x0A]) w"

definition space_runes :: "rune list" where
  \<comment> \<open>the runes of \<open>unicode.IsSpace\<close>\<close>
  "space_runes =
     [0x09, 0x0A, 0x0B, 0x0C, 0x0D, 0x20, 0x85, 0xA0, 0x1680,
      0x2000, 0x2001, 0x2002, 0x2003, 0x2004, 0x2005, 0x2006, 0x2007, 0x2008, 0x2009, 0x200A,
      0x2028, 0x2029, 0x202F, 0x205F, 0x3000]"

fun TrimLeft_space :: "string \<Rightarrow> string" where
  "TrimLeft_space [] = []"
| "TrimLeft_space (b # bs) =
     (if fst (decoderune (b # bs)) \<in> set space_runes
      then TrimLeft_space (drop (snd (decoderune (b # bs)) - 1) bs)
      else b # bs)"

definition last_space_width :: "string \<Rightarrow> nat" where
  \<comment> \<open>the width of the white-space rune that ends the string, 0 when none does; a last
      byte below \<open>RuneSelf\<close> is looked up on its own, as in \<open>TrimSpace\<close>\<close>
  "last_space_width s =
     (if s = [] then 0
      else if byte_val (last s) < 0x80
        then (if byte_val (last s) \<in> set space_runes then 1 else 0)
      else
        (case find (\<lambda>r. length (encoderune r) \<le> length s
                        \<and> drop (length s - length (encoderune r)) s = encoderune r)
                space_runes of
           None \<Rightarrow> 0
         | Some r \<Rightarrow> length (encoderune r)))"

function TrimRight_space :: "string \<Rightarrow> string" where
  "TrimRight_space s =
     (if 0 < last_space_width s \<and> last_space_width s \<le> length s
      then TrimRight_space (take (length s - last_space_width s) s)
      else s)"
  by pat_completeness auto
termination
  by (relation "measure length") auto

declare TrimRight_space.simps [simp del]

definition TrimSpace :: "string \<Rightarrow> string" where
  \<comment> \<open>\<open>strings.TrimSpace\<close>: leading and trailing white space removed\<close>
  "TrimSpace s = TrimRight_space (TrimLeft_space s)"

definition LastIndex_dot :: "string \<Rightarrow> int" where
  \<comment> \<open>\<open>strings.LastIndex(w, ".")\<close>: the index of the last dot, \<open>-1\<close> without one\<close>
  "LastIndex_dot w =
     (if CHR ''.'' \<in> set w
      then int (length w - 1 - length (takeWhile (\<lambda>c. c \<noteq> CHR ''.'') (rev w)))
      else - 1)"

subsection \<open>\<open>ChecksumWords\<close>\<close>

definition decode_line :: "string \<Rightarrow> string" where
  \<comment> \<open>\<open>w, _ := url.PathUnescape(s.Text()); w, _ = url.PathUnescape(w)\<close>\<close>
  "decode_line line = fst (PathUnescape (fst (PathUnescape line)))"

definition sanitize :: "(string \<Rightarrow> string) \<Rightarrow> string \<Rightarrow> string" where
  \<comment> \<open>\<open>path.Base\<close>, \<open>paramRegex.Split(w, 2)[0]\<close>, \<open>strings.TrimSpace\<close>,
      \<open>strings.ReplaceAll(w, "\t", "")\<close>; the regular expression is an argument of
      \<open>ChecksumWords\<close>, here the function \<open>split0\<close> that gives the first piece of the split\<close>
  "sanitize split0 w = filter (\<lambda>c. c \<noteq> CHR 0x09) (TrimSpace (split0 (path_Base w)))"

definition split_ext :: "string \<Rightarrow> string \<times> string" where
  \<comment> \<open>\<open>if p := strings.LastIndex(w, "."); p > 0 && w[0] != '.'\<close>; \<open>w[0]\<close> is read only
      where \<open>p > 0\<close>, so in range\<close>
  "split_ext w =
     (let p = LastIndex_dot w
      in if 0 < p \<and> w ! 0 \<noteq> CHR ''.'' then (take (nat p) w, drop (nat p + 1) w)
         else (w, []))"

definition variant_checksums :: "unicode_tables \<Rightarrow> bool \<Rightarrow> string \<Rightarrow> string list" where
  \<comment> \<open>the keys of the map \<open>vs\<close>: nothing is inserted unless \<open>args.Wordlist.Variants\<close>\<close>
  "variant_checksums U variants w =
     (if variants then remdups (map Checksum (GenerateVariants U w)) else [])"

text \<open>
  The body of the loop for one line of the scanner: \<open>None\<close> is the \<open>continue\<close>,
  \<open>Some\<close> the record that is appended. The string \<open>c\<close> is the concatenation of the
  keys of \<open>vs\<close>.
\<close>

definition process_line ::
    "unicode_tables \<Rightarrow> bool \<Rightarrow> (string \<Rightarrow> string) \<Rightarrow> string \<Rightarrow> wordlistRecord option" where
  "process_line U variants split0 line =
     (let w = sanitize split0 (decode_line line);
          (f, e) = split_ext w;
          (r, f83, e83) = Gen8dot3Unicode U f e
      in if \<not> r then None
         else Some \<lparr>checksum = concat (variant_checksums U variants w),
                     filename = f, extension = e, filename83 = f83, extension83 = e83\<rparr>)"

fun ChecksumWords_loop ::
    "unicode_tables \<Rightarrow> bool \<Rightarrow> (string \<Rightarrow> string) \<Rightarrow> wordlistRecord list \<Rightarrow> string list
      \<Rightarrow> wordlistRecord list" where
  "ChecksumWords_loop U variants split0 wc [] = wc"
| "ChecksumWords_loop U variants split0 wc (line # rest) =
     (case process_line U variants split0 line of
        None \<Rightarrow> ChecksumWords_loop U variants split0 wc rest
      | Some rec \<Rightarrow> ChecksumWords_loop U variants split0 (wc @ [rec]) rest)"

text \<open>
  The reader \<open>fh\<close> is the string of the bytes it delivers, the end of the input reported
  by a read of its own, as a file does. \<open>bufio.NewScanner\<close> splits it with
  \<open>ScanLines\<close>: a line ends at \<open>\n\<close> or at the end of the input, and one trailing
  \<open>\r\<close> is dropped. The buffer of the scanner grows to \<open>MaxScanTokenSize\<close> bytes and no
  further: when it is full and holds no \<open>\n\<close>, \<open>Scan\<close> sets \<open>ErrTooLong\<close> and returns
  false, for this line and for ever after.
\<close>

datatype scan_error = ErrTooLong

definition MaxScanTokenSize :: nat where
  "MaxScanTokenSize = 64 * 1024"

definition dropCR :: "string \<Rightarrow> string" where
  "dropCR data = (if data \<noteq> [] \<and> last data = CHR 0x0D then butlast data else data)"

text \<open>
  The tokens that the calls of \<open>s.Scan()\<close> yield until one returns false, and what
  \<open>s.Err()\<close> holds then.
\<close>

function scan_lines :: "string \<Rightarrow> string list \<times> scan_error option" where
  "scan_lines data =
     (if data = [] then ([], None)
      else
        let line = takeWhile (\<lambda>c. c \<noteq> CHR 0x0A) data
        in if MaxScanTokenSize \<le> length line then ([], Some ErrTooLong)
           else
             let more = scan_lines (drop (length line + 1) data)
             in (dropCR line # fst more, snd more))"
  by pat_completeness auto
termination
  by (relation "measure length") auto

declare scan_lines.simps [simp del]

text \<open>
  \<open>ChecksumWords\<close>, with the flag \<open>args.Wordlist.Variants\<close> and the regular expression as
  arguments: the loop \<open>for s.Scan()\<close> runs over the tokens of the scanner, and
  \<open>s.Err()\<close> is never read.
\<close>

definition ChecksumWords ::
    "unicode_tables \<Rightarrow> bool \<Rightarrow> (string \<Rightarrow> string) \<Rightarrow> string \<Rightarrow> wordlistRecord list" where
  "ChecksumWords U variants split0 fh =
     ChecksumWords_loop U variants split0 [] (fst (scan_lines fh))"

section \<open>A fragment of the Unicode tables\<close>

text \<open>
  The tables for the code points below \<open>U+0100\<close> (Basic Latin and Latin-1 Supplement),
  on which the functions can be evaluated: simple case mappings, canonical decompositions
  and the combining diacritical marks \<open>U+0300 .. U+036F\<close> that these decompositions
  produce.
\<close>

definition latin1_upper :: "rune \<Rightarrow> rune" where
  "latin1_upper r =
     (if 0xE0 \<le> r \<and> r \<le> 0xFE \<and> r \<noteq> 0xF7 then r - 0x20
      else if r = 0xFF then 0x178
      else if r = 0xB5 then 0x39C
      else r)"

definition latin1_lower :: "rune \<Rightarrow> rune" where
  "latin1_lower r = (if 0xC0 \<le> r \<and> r \<le> 0xDE \<and> r \<noteq> 0xD7 then r + 0x20 else r)"

definition latin1_decomp_table :: "(rune \<times> rune list) list" where
  "latin1_decomp_table =
    [(0xC0, [0x41, 0x300]), (0xC1, [0x41, 0x301]), (0xC2, [0x41, 0x302]),
     (0xC3, [0x41, 0x303]), (0xC4, [0x41, 0x308]), (0xC5, [0x41, 0x30A]),
     (0xC7, [0x43, 0x327]), (0xC8, [0x45, 0x300]), (0xC9, [0x45, 0x301]),
     (0xCA, [0x45, 0x302]), (0xCB, [0x45, 0x308]), (0xCC, [0x49, 0x300]),
     (0xCD, [0x49, 0x301]), (0xCE, [0x49, 0x302]), (0xCF, [0x49, 0x308]),
     (0xD1, [0x4E, 0x303]), (0xD2, [0x4F, 0x300]), (0xD3, [0x4F, 0x301]),
     (0xD4, [0x4F, 0x302]), (0xD5, [0x4F, 0x303]), (0xD6, [0x4F, 0x308]),
     (0xD9, [0x55, 0x300]), (0xDA, [0x55, 0x301]), (0xDB, [0x55, 0x302]),
     (0xDC, [0x55, 0x308]), (0xDD, [0x59, 0x301]), (0xE0, [0x61, 0x300]),
     (0xE1, [0x61, 0x301]), (0xE2, [0x61, 0x302]), (0xE3, [0x61, 0x303]),
     (0xE4, [0x61, 0x308]), (0xE5, [0x61, 0x30A]), (0xE7, [0x63, 0x327]),
     (0xE8, [0x65, 0x300]), (0xE9, [0x65, 0x301]), (0xEA, [0x65, 0x302]),
     (0xEB, [0x65, 0x308]), (0xEC, [0x69, 0x300]), (0xED, [0x69, 0x301]),
     (0xEE, [0x69, 0x302]), (0xEF, [0x69, 0x308]), (0xF1, [0x6E, 0x303]),
     (0xF2, [0x6F, 0x300]), (0xF3, [0x6F, 0x301]), (0xF4, [0x6F, 0x302]),
     (0xF5, [0x6F, 0x303]), (0xF6, [0x6F, 0x308]), (0xF9, [0x75, 0x300]),
     (0xFA, [0x75, 0x301]), (0xFB, [0x75, 0x302]), (0xFC, [0x75, 0x308]),
     (0xFD, [0x79, 0x301]), (0xFF, [0x79, 0x308])]"

definition latin1_decomp :: "rune \<Rightarrow> rune list" where
  "latin1_decomp r =
     (if r < 0x80 then [r]
      else case map_of latin1_decomp_table r of Some d \<Rightarrow> d | None \<Rightarrow> [r])"

definition latin1_nfd :: "string \<Rightarrow> string" where
  "latin1_nfd s = string_of_runes (concat (map latin1_decomp (runes s)))"

definition latin1_tables :: unicode_tables where
  "latin1_tables =
     \<lparr>to_upper = latin1_upper, to_lower = latin1_lower, nfd_string = latin1_nfd,
      is_Mn = (\<lambda>r. 0x300 \<le> r \<and> r \<le> 0x36F)\<rparr>"

section \<open>The specification's readings\<close>

text \<open>
  What the specification says of an operation, written down from its words, to be
  compared with the operation as the code has it.
\<close>

definition signed32 :: "int \<Rightarrow> int" where
  \<comment> \<open>an integer read as a signed 32-bit value\<close>
  "signed32 x = (x + 2 ^ 31) mod 2 ^ 32 - 2 ^ 31"

definition hex4_nat :: "nat \<Rightarrow> string" where
  \<comment> \<open>four hexadecimal digits, upper case, zero-padded\<close>
  "hex4_nat n =
     [hexdigit (n div 4096 mod 16), hexdigit (n div 256 mod 16), hexdigit (n div 16 mod 16),
      hexdigit (n mod 16)]"

definition reverse_nibbles :: "nat \<Rightarrow> nat" where
  \<comment> \<open>bits 12-15 to 0-3, 8-11 to 4-7, 4-7 to 8-11, 0-3 to 12-15\<close>
  "reverse_nibbles v =
     v div 4096 mod 16 + (v div 256 mod 16) * 16 + (v div 16 mod 16) * 256 + (v mod 16) * 4096"

definition Checksum_spec :: "string \<Rightarrow> string" where
  "Checksum_spec f =
     (let ck = foldl (\<lambda>ck c. (ck * 0x25 + int c) mod 2 ^ 16) 0 (runes f);
          a = \<bar>signed32 (ck * 314159269)\<bar>;
          t = a - ((a * 1152921497) mod 2 ^ 64 div 2 ^ 60) * 1000000007
      in hex4_nat (reverse_nibbles (nat (t mod 2 ^ 16))))"

definition ChecksumNT_spec :: "string \<Rightarrow> string" where
  \<comment> \<open>each code point times its 1-based position among the code points\<close>
  "ChecksumNT_spec f =
     hex4_nat ((sum_list (map (\<lambda>(k, c). c * (k + 1)) (enumerate 0 (runes f))) mod 2 ^ 16)
                XOR 0xA5A5)"


definition split_ext_spec :: "string \<Rightarrow> string \<times> string" where
  \<comment> \<open>split at the last dot that is not the first character; without one, the extension
      is empty\<close>
  "split_ext_spec w =
     (if CHR ''.'' \<in> set (tl w)
      then (rev (tl (dropWhile (\<lambda>c. c \<noteq> CHR ''.'') (rev w))),
            rev (takeWhile (\<lambda>c. c \<noteq> CHR ''.'') (rev w)))
      else (w, []))"

definition valid_utf8 :: "string \<Rightarrow> bool" where
  \<comment> \<open>decoding and encoding again gives the string back\<close>
  "valid_utf8 s = (string_of_runes (runes s) = s)"

text \<open>
  What the Unicode standard gives for the ASCII range, as conditions on the tables:
  normalisation leaves an ASCII string as it is, and no ASCII code point is a nonspacing
  mark.
\<close>

definition nfd_fixes_ascii :: "unicode_tables \<Rightarrow> bool" where
  "nfd_fixes_ascii U = (\<forall>s. is_ascii s \<longrightarrow> nfd_string U s = s)"

definition no_ascii_Mn :: "unicode_tables \<Rightarrow> bool" where
  "no_ascii_Mn U = (\<forall>r. r < 0x80 \<longrightarrow> \<not> is_Mn U r)"

section \<open>Properties of the fingerprints\<close>

subsection \<open>Hexadecimal digits and nibbles\<close>

lemma nibble_mask: "(0xF :: 16 word) = mask 4"
  by (simp add: mask_eq_exp_minus_1)

lemma nibble_unat: "unat (drop_bit k (w :: 16 word) AND 0xF) = unat w div 2 ^ k mod 16"
proof -
  have "unat (drop_bit k w AND mask 4) = unat (take_bit 4 (drop_bit k w))"
    by (simp only: take_bit_eq_mask)
  also have "\<dots> = take_bit 4 (drop_bit k (unat w))"
    by (simp add: unsigned_take_bit_eq unat_drop_bit_eq)
  also have "\<dots> = unat w div 2 ^ k mod 16"
    by (simp add: take_bit_eq_mod drop_bit_eq_div)
  finally show ?thesis by (simp only: nibble_mask)
qed

lemma hex4_eq_hex4_nat: "hex4 w = hex4_nat (unat w)"
  by (simp add: hex4_def hex4_nat_def nibble_unat)

lemma nibble_consts:
  "(0xF000 :: 16 word) = push_bit 12 (mask 4)" "(0x0F00 :: 16 word) = push_bit 8 (mask 4)"
  "(0x00F0 :: 16 word) = push_bit 4 (mask 4)" "(0x000F :: 16 word) = mask 4"
  by (simp_all add: mask_eq_exp_minus_1)

lemma swap_nibbles_12: "drop_bit 12 (swap_nibbles w) AND mask 4 = drop_bit 0 w AND mask 4"
  unfolding swap_nibbles_def nibble_consts
  by (rule bit_word_eqI) (auto simp add: bit_simps)

lemma swap_nibbles_8: "drop_bit 8 (swap_nibbles w) AND mask 4 = drop_bit 4 w AND mask 4"
  unfolding swap_nibbles_def nibble_consts
  by (rule bit_word_eqI) (auto simp add: bit_simps)

lemma swap_nibbles_4: "drop_bit 4 (swap_nibbles w) AND mask 4 = drop_bit 8 w AND mask 4"
  unfolding swap_nibbles_def nibble_consts
  by (rule bit_word_eqI) (auto simp add: bit_simps)

lemma swap_nibbles_0: "drop_bit 0 (swap_nibbles w) AND mask 4 = drop_bit 12 w AND mask 4"
  unfolding swap_nibbles_def nibble_consts
  by (rule bit_word_eqI) (auto simp add: bit_simps)

lemma hex4_swap_nibbles:
  "hex4 (swap_nibbles w) =
     [hexdigit (unat w mod 16), hexdigit (unat w div 16 mod 16),
      hexdigit (unat w div 256 mod 16), hexdigit (unat w div 4096 mod 16)]"
proof -
  have "hex4 (swap_nibbles w) =
      map (\<lambda>k. hexdigit (unat (drop_bit k w AND 0xF))) [0, 4, 8, 12]"
    unfolding hex4_def nibble_mask
    by (simp only: list.map swap_nibbles_12 swap_nibbles_8 swap_nibbles_4 swap_nibbles_0)
  then show ?thesis
    by (simp add: nibble_unat)
qed

lemma horner16:
  fixes x y :: nat
  assumes "x < 16"
  shows "(x + 16 * y) mod 16 = x" "(x + 16 * y) div 16 = y"
  using assms by simp_all

lemma hex4_nat_reverse_nibbles:
  "hex4_nat (reverse_nibbles v) =
     [hexdigit (v mod 16), hexdigit (v div 16 mod 16),
      hexdigit (v div 256 mod 16), hexdigit (v div 4096 mod 16)]"
proof -
  define a where "a = v div 4096 mod 16"
  define b where "b = v div 256 mod 16"
  define c where "c = v div 16 mod 16"
  define d where "d = v mod 16"
  define n where "n = a + 16 * (b + 16 * (c + 16 * d))"
  have lt: "a < 16" "b < 16" "c < 16" "d < 16"
    by (simp_all add: a_def b_def c_def d_def)
  have r: "reverse_nibbles v = n"
    by (simp add: reverse_nibbles_def a_def b_def c_def d_def n_def)
  have d0: "n mod 16 = a" and q1: "n div 16 = b + 16 * (c + 16 * d)"
    unfolding n_def using lt(1) by (rule horner16)+
  have d1: "n div 16 mod 16 = b" and q2: "n div 16 div 16 = c + 16 * d"
    unfolding q1 using lt(2) by (rule horner16)+
  have d2: "n div 16 div 16 mod 16 = c" and q3: "n div 16 div 16 div 16 = d"
    unfolding q2 using lt(3) by (rule horner16)+
  have e2: "n div 256 = n div 16 div 16"
    using div_mult2_eq [of n 16 16] by simp
  have e3: "n div 4096 = n div 16 div 16 div 16"
    using div_mult2_eq [of n 256 16] e2 by simp
  show ?thesis
    unfolding hex4_nat_def r e2 e3 d0 d1 d2 q3 using lt(4)
    by (simp add: a_def b_def c_def d_def)
qed

subsection \<open>The modern algorithm against its specification\<close>

lemma Checksum_step_uint:
  "uint (Checksum_step w c) = (uint w * 0x25 + int c) mod 2 ^ 16"
proof -
  have "uint (of_nat c :: 16 word) = int c mod 2 ^ 16"
    by (simp add: unsigned_of_nat take_bit_eq_mod zmod_int)
  then show ?thesis
    unfolding Checksum_step_def
    by (simp add: uint_word_ariths mod_simps)
qed

lemma Checksum_fold_uint:
  "uint (foldl Checksum_step w rs) =
     foldl (\<lambda>ck c. (ck * 0x25 + int c) mod 2 ^ 16) (uint w) rs"
  by (induction rs arbitrary: w) (simp_all add: Checksum_step_uint)

lemma sint_signed32: "sint (w :: 32 word) = signed32 (uint w)"
  unfolding signed32_def
  by (simp add: sint_uint signed_take_bit_eq_take_bit_shift take_bit_eq_mod)

lemma signed32_mod: "signed32 (x mod 2 ^ 32) = signed32 x"
  unfolding signed32_def by (simp add: mod_simps)

lemma signed32_range: "- (2 ^ 31) \<le> signed32 x" "signed32 x < 2 ^ 31"
  unfolding signed32_def
  using pos_mod_bound [of "2 ^ 32" "x + 2 ^ 31"] pos_mod_sign [of "2 ^ 32" "x + 2 ^ 31"]
  by simp_all

lemma product_sint:
  "sint ((ucast (ck :: 16 word) :: 32 word) * 314159269) = signed32 (uint ck * 314159269)"
proof -
  have "uint (ucast ck :: 32 word) = uint ck"
    by (simp add: uint_up_ucast is_up)
  then have "uint ((ucast ck :: 32 word) * 314159269) = (uint ck * 314159269) mod 2 ^ 32"
    by (simp add: uint_word_ariths)
  then show ?thesis
    by (simp only: sint_signed32 signed32_mod)
qed

text \<open>The product is never \<open>-2^31\<close>: the absolute value is an \<open>int32\<close>.\<close>

lemma Checksum_product_not_min:
  "sint ((ucast (ck :: 16 word) :: 32 word) * 314159269) \<noteq> - (2 ^ 31)"
proof
  let ?c = "uint ck"
  assume "sint ((ucast ck :: 32 word) * 314159269) = - (2 ^ 31)"
  then have "signed32 (?c * 314159269) = - (2 ^ 31)"
    by (simp only: product_sint)
  then have z: "(?c * 314159269 + 2 ^ 31) mod 2 ^ 32 = 0"
    by (simp add: signed32_def)
  then have "(2::int) ^ 32 dvd ?c * 314159269 + 2 ^ 31"
    by (simp only: dvd_eq_mod_eq_0)
  moreover have "(2::int) ^ 31 dvd 2 ^ 32" by simp
  ultimately have "(2::int) ^ 31 dvd ?c * 314159269 + 2 ^ 31"
    by (rule dvd_trans [rotated])
  then have "(2::int) ^ 31 dvd ?c * 314159269"
    by (simp only: dvd_add_left_iff [OF dvd_refl])
  moreover have "coprime ((2::int) ^ 31) 314159269"
    by (rule coprime_power_left_iff [THEN iffD2]) simp
  ultimately have d: "(2::int) ^ 31 dvd ?c"
    by (simp add: coprime_dvd_mult_left_iff)
  have lt: "?c < 2 ^ 31" using uint_bounded [of ck] by simp
  have "?c = 0"
  proof (rule ccontr)
    assume "?c \<noteq> 0"
    then have "0 < ?c" using uint_ge_0 [of ck] by linarith
    from zdvd_not_zless [OF this lt] d show False by simp
  qed
  with z show False by simp
qed

lemma abs_int32_wi: "abs_int32 x = word_of_int \<bar>sint x\<bar>"
  unfolding abs_int32_def by (simp add: abs_if)

lemma Checksum_mix_uint:
  fixes ck :: "16 word"
  defines "t0 \<equiv> abs_int32 ((ucast ck :: 32 word) * 314159269)"
  shows "uint (ucast (t0 - (ucast (drop_bit 60 ((scast t0 :: 64 word) * 1152921497)
            * 1000000007) :: 32 word)) :: 16 word) =
     (let a = \<bar>signed32 (uint ck * 314159269)\<bar>
      in (a - ((a * 1152921497) mod 2 ^ 64 div 2 ^ 60) * 1000000007) mod 2 ^ 16)"
proof -
  define a where "a = \<bar>signed32 (uint ck * 314159269)\<bar>"
  have a_range: "0 \<le> a" "a < 2 ^ 31"
    using signed32_range [of "uint ck * 314159269"] Checksum_product_not_min [of ck]
    unfolding a_def product_sint by simp_all
  have t0: "t0 = word_of_int a"
    unfolding t0_def a_def abs_int32_wi product_sint ..
  have "sint t0 = a"
    unfolding t0 using a_range
    by (simp add: sint_uint uint_word_of_int signed_take_bit_int_eq_self take_bit_eq_mod)
  then have sc: "(scast t0 :: 64 word) = word_of_int a"
    by (simp only: scast_eq)
  define q where "q = uint (drop_bit 60 ((word_of_int a :: 64 word) * 1152921497))"
  have q: "q = (a * 1152921497) mod 2 ^ 64 div 2 ^ 60"
    unfolding q_def
    by (simp add: drop_bit_eq_div uint_div uint_word_ariths uint_word_of_int mod_simps)
  have dq: "drop_bit 60 ((word_of_int a :: 64 word) * 1152921497) = word_of_int q"
    unfolding q_def by simp
  have e3: "(word_of_int q * 1000000007 :: 64 word) = word_of_int (q * 1000000007)"
    by simp
  have e4: "(ucast (word_of_int (q * 1000000007) :: 64 word) :: 32 word)
      = word_of_int (q * 1000000007)"
    by (rule ucast_down_wi) (simp add: is_down)
  have sub: "(ucast (drop_bit 60 ((scast t0 :: 64 word) * 1152921497) * 1000000007) :: 32 word)
      = word_of_int (q * 1000000007)"
    by (simp only: sc dq e3 e4)
  have "t0 - (ucast (drop_bit 60 ((scast t0 :: 64 word) * 1152921497) * 1000000007)
                     :: 32 word) = word_of_int a - word_of_int (q * 1000000007)"
    by (simp only: sub) (simp only: t0)
  also have "\<dots> = word_of_int (a - q * 1000000007)"
    by (simp only: of_int_diff)
  finally have "(ucast (t0 - (ucast (drop_bit 60 ((scast t0 :: 64 word) * 1152921497)
                     * 1000000007) :: 32 word)) :: 16 word)
      = ucast (word_of_int (a - q * 1000000007) :: 32 word)"
    by (rule arg_cong)
  also have "\<dots> = word_of_int (a - q * 1000000007)"
    by (rule ucast_down_wi) (simp add: is_down)
  finally have "uint (ucast (t0 - (ucast (drop_bit 60 ((scast t0 :: 64 word) * 1152921497)
                     * 1000000007) :: 32 word)) :: 16 word) = (a - q * 1000000007) mod 2 ^ 16"
    by (simp only: uint_word_of_int) simp
  then show ?thesis
    unfolding Let_def q a_def .
qed

text \<open>
  C1. For every string \<open>f\<close>, \<open>Checksum f\<close> is what the specification describes: the
  16-bit accumulator \<open>ck = ck * 0x25 + c\<close> over the code points, the product with
  \<open>314159269\<close> as a signed 32-bit value, its absolute value \<open>a\<close>, the difference
  \<open>a - ((a * 1152921497 as unsigned 64-bit) >> 60) * 1000000007\<close> truncated to 16 bits,
  the four nibbles reversed, and the result as four upper-case hexadecimal digits.
\<close>

theorem Checksum_refines_spec: "Checksum f = Checksum_spec f"
proof -
  define ck where "ck = foldl Checksum_step 0 (runes f)"
  define t0 where "t0 = abs_int32 ((ucast ck :: 32 word) * 314159269)"
  define t where "t = (ucast (t0 - (ucast (drop_bit 60 ((scast t0 :: 64 word) * 1152921497)
            * 1000000007) :: 32 word)) :: 16 word)"
  have ck: "uint ck = foldl (\<lambda>ck c. (ck * 0x25 + int c) mod 2 ^ 16) 0 (runes f)"
    unfolding ck_def using Checksum_fold_uint [of 0 "runes f"] by simp
  define m where "m = (let a = \<bar>signed32 (uint ck * 314159269)\<bar>
      in (a - ((a * 1152921497) mod 2 ^ 64 div 2 ^ 60) * 1000000007) mod 2 ^ 16)"
  have t: "uint t = m"
    unfolding t_def t0_def m_def by (rule Checksum_mix_uint)
  have "Checksum f = hex4 (swap_nibbles t)"
    by (simp add: Checksum_def Checksum_mix_def Let_def ck_def t0_def t_def)
  also have "\<dots> = hex4_nat (reverse_nibbles (unat t))"
    by (simp only: hex4_swap_nibbles hex4_nat_reverse_nibbles)
  also have "unat t = nat m"
    using t by (simp add: unat_eq_nat_uint)
  finally show ?thesis
    by (simp add: Checksum_spec_def m_def Let_def ck)
qed

subsection \<open>ASCII strings\<close>

lemma decoderune_ascii: "byte_val b < 0x80 \<Longrightarrow> decoderune (b # bs) = (byte_val b, 1)"
  by (simp add: decoderune_def)

lemma range_from_ascii: "is_ascii s \<Longrightarrow> range_from i s = enumerate i (map byte_val s)"
  by (induction s arbitrary: i) (simp_all add: is_ascii_def decoderune_ascii)

lemma runes_ascii: "is_ascii s \<Longrightarrow> runes s = map byte_val s"
  by (simp add: runes_def range_str_def range_from_ascii)

lemma range_str_ascii: "is_ascii s \<Longrightarrow> range_str s = enumerate 0 (runes s)"
  by (simp add: runes_ascii) (simp add: range_str_def range_from_ascii)

subsection \<open>The weighted algorithm\<close>

lemma ChecksumNT_fold:
  "foldl ChecksumNT_step (of_nat n) xs
     = of_nat (n + sum_list (map (\<lambda>(i, c). c * (i + 1)) xs))"
proof (induction xs arbitrary: n)
  case Nil
  then show ?case by simp
next
  case (Cons x xs)
  have "ChecksumNT_step (of_nat n) x = of_nat (n + snd x * (fst x + 1))"
    by (simp add: ChecksumNT_step_def algebra_simps)
  then show ?case
    using Cons.IH [of "n + snd x * (fst x + 1)"]
    by (simp add: case_prod_unfold add.assoc)
qed

lemma ChecksumNT_sum:
  "ChecksumNT f =
     hex4_nat ((sum_list (map (\<lambda>(i, c). c * (i + 1)) (range_str f)) mod 2 ^ 16) XOR 0xA5A5)"
proof -
  let ?s = "sum_list (map (\<lambda>(i, c). c * (i + 1)) (range_str f))"
  have "foldl ChecksumNT_step 0 (range_str f) = (of_nat ?s :: 16 word)"
    using ChecksumNT_fold [of 0 "range_str f"] by simp
  moreover have "unat ((of_nat ?s :: 16 word) XOR 0xA5A5) = (?s mod 2 ^ 16) XOR 0xA5A5"
    by (simp add: unsigned_xor_eq unat_of_nat)
  ultimately show ?thesis
    by (simp only: ChecksumNT_def hex4_eq_hex4_nat)
qed

text \<open>
  C8 (amended). The weight of a code point is the index of its first byte plus one;
  on an ASCII string that is its position among the code points.
\<close>

theorem ChecksumNT_byte_offset_weights:
  "ChecksumNT f =
     hex4_nat ((sum_list (map (\<lambda>(i, c). c * (i + 1)) (range_str f)) mod 2 ^ 16) XOR 0xA5A5)
   \<and> (is_ascii f \<longrightarrow> ChecksumNT f = ChecksumNT_spec f)"
  by (simp add: ChecksumNT_sum [symmetric]) (simp add: ChecksumNT_sum ChecksumNT_spec_def range_str_ascii)

lemmas eval_simps =
  runes_def range_str_def decoderune_def byte_val_def is_cont_def RuneError_def
  hex4_def hex4_nat_def hexdigit_def char_of_def bit_0 is_ascii_def enumerate_eq_zip

theorem ChecksumNT_byte_offset_weights_witness:
  "is_ascii ''abc'' \<and> ChecksumNT ''abc'' = ChecksumNT_spec ''abc'' \<and> ChecksumNT ''abc'' = ''A7EB''"
  using ChecksumNT_byte_offset_weights [of "''abc''"]
  by (simp add: eval_simps ChecksumNT_spec_def)

theorem ChecksumNT_position_counterexample:
  "ChecksumNT [CHR 0xC3, CHR 0xA9, CHR ''a''] = ''A7A9''
   \<and> ChecksumNT_spec [CHR 0xC3, CHR 0xA9, CHR ''a''] = ''A40E''"
  by (simp add: eval_simps ChecksumNT_def ChecksumNT_step_def ChecksumNT_spec_def)

subsection \<open>The shape of a fingerprint\<close>

lemma hexdigit_upper: "n < 16 \<Longrightarrow> is_upper_hex (hexdigit n)"
proof -
  assume "n < 16"
  then have "n \<in> set [0..<16]" by simp
  moreover have "list_all (\<lambda>n. is_upper_hex (hexdigit n)) [0..<16]"
    by code_simp
  ultimately show ?thesis
    by (simp only: list_all_iff)
qed

lemma hex4_shape: "length (hex4 w) = 4 \<and> list_all is_upper_hex (hex4 w)"
  by (simp add: hex4_eq_hex4_nat hex4_nat_def hexdigit_upper)

text \<open>
  C3. \<open>ChecksumOriginal\<close> fails on every string of fewer than two bytes, with the panic
  of the out-of-range read, and on every longer string returns four upper-case
  hexadecimal digits.
\<close>

theorem ChecksumOriginal_needs_two_bytes:
  "(length f < 2 \<longrightarrow> ChecksumOriginal f = Inl IndexOutOfRange)
   \<and> (2 \<le> length f \<longrightarrow>
        (\<exists>s. ChecksumOriginal f = Inr s \<and> length s = 4 \<and> list_all is_upper_hex s))"
  by (auto simp add: ChecksumOriginal_def Let_def hex4_shape)

theorem ChecksumOriginal_needs_two_bytes_witness:
  "length ''a'' < 2 \<and> ChecksumOriginal ''a'' = Inl IndexOutOfRange
   \<and> ChecksumOriginal [] = Inl IndexOutOfRange
   \<and> 2 \<le> length ''abc''
   \<and> (\<exists>s. ChecksumOriginal ''abc'' = Inr s \<and> length s = 4 \<and> list_all is_upper_hex s)
   \<and> ChecksumOriginal ''abc'' = Inr ''1B39''"
  using ChecksumOriginal_needs_two_bytes [of "''a''"] ChecksumOriginal_needs_two_bytes [of "[]"]
    ChecksumOriginal_needs_two_bytes [of "''abc''"]
  by (simp add: ChecksumOriginal_def ChecksumOriginal_loop.simps [of _ 2]
        ChecksumOriginal_loop.simps [of _ 4] uint16_of_byte_def swap_nibbles_def eval_simps)

section \<open>Properties of the folding and of the short name\<close>

subsection \<open>Encoding ASCII runes\<close>

lemma string_of_runes_ascii:
  "list_all (\<lambda>r. r < 0x80) rs \<Longrightarrow> string_of_runes rs = map char_of rs"
  by (induction rs) (simp_all add: string_of_runes_def encoderune_def)

lemma is_ascii_map_char_of:
  "list_all (\<lambda>r. r < 0x80) (rs :: rune list) \<Longrightarrow> is_ascii (map char_of rs)"
  by (induction rs) (simp_all add: is_ascii_def byte_val_def)

lemma byte_val_map_char_of:
  "list_all (\<lambda>r. r < 0x80) (rs :: rune list) \<Longrightarrow> map (byte_val \<circ> char_of) rs = rs"
  by (induction rs) (simp_all add: byte_val_def)

lemma runes_string_of_runes_ascii:
  assumes "list_all (\<lambda>r. r < 0x80) rs"
  shows "is_ascii (string_of_runes rs)" and "runes (string_of_runes rs) = rs"
  using assms
  by (simp_all add: string_of_runes_ascii is_ascii_map_char_of runes_ascii byte_val_map_char_of)

lemma string_of_runes_byte_val: "is_ascii s \<Longrightarrow> string_of_runes (map byte_val s) = s"
proof -
  assume a: "is_ascii s"
  then have "list_all (\<lambda>r. r < 0x80) (map byte_val s)"
    by (simp add: is_ascii_def list_all_iff)
  then have "string_of_runes (map byte_val s) = map char_of (map byte_val s)"
    by (rule string_of_runes_ascii)
  then show ?thesis
    by (simp add: byte_val_def comp_def)
qed

subsection \<open>The Unicode folder\<close>

lemma ToASCII_loop_filter:
  "ToASCII_loop U ascii rs = ascii @ filter (\<lambda>r. \<not> is_Mn U r \<and> r \<le> 127) rs"
  by (induction rs arbitrary: ascii) (simp_all add: not_less)

lemma ToASCII_filter:
  "ToASCII U s = string_of_runes (filter (\<lambda>r. \<not> is_Mn U r \<and> r \<le> 127) (runes (nfd_string U s)))"
  by (simp add: ToASCII_def ToASCII_loop_filter)

lemma filter_kept_ascii: "list_all (\<lambda>r. r < 0x80) (filter (\<lambda>r. \<not> is_Mn U r \<and> r \<le> 127) rs)"
  by (induction rs) simp_all

lemma ToASCII_is_ascii: "is_ascii (ToASCII U s)"
  unfolding ToASCII_filter by (rule runes_string_of_runes_ascii(1) [OF filter_kept_ascii])

lemma runes_ToASCII:
  "runes (ToASCII U s) = filter (\<lambda>r. \<not> is_Mn U r \<and> r \<le> 127) (runes (nfd_string U s))"
  unfolding ToASCII_filter by (rule runes_string_of_runes_ascii(2) [OF filter_kept_ascii])

lemma ToASCII_ascii_id:
  assumes "nfd_fixes_ascii U" "no_ascii_Mn U" "is_ascii s"
  shows "ToASCII U s = s"
proof -
  have n: "nfd_string U s = s"
    using assms(1,3) by (simp add: nfd_fixes_ascii_def)
  have "filter (\<lambda>r. \<not> is_Mn U r \<and> r \<le> 127) (map byte_val s) = map byte_val s"
    using assms(2,3) by (auto simp add: no_ascii_Mn_def is_ascii_def list_all_iff filter_id_conv)
  then show ?thesis
    using assms(3) by (simp add: ToASCII_filter n runes_ascii string_of_runes_byte_val)
qed

text \<open>
  C9. The Unicode folder keeps, in their order, the runes of the normalised string that
  are no nonspacing marks and lie in the ASCII range, and it is idempotent. The
  normalisation is \<open>norm.NFD.String\<close>, which leaves an ASCII string as it is.
\<close>

theorem ToASCII_idempotent:
  assumes "nfd_fixes_ascii U"
  shows "ToASCII U (ToASCII U s) = ToASCII U s
         \<and> runes (ToASCII U s)
             = filter (\<lambda>r. \<not> is_Mn U r \<and> r \<le> 127) (runes (nfd_string U s))"
proof (rule conjI)
  let ?P = "\<lambda>r. \<not> is_Mn U r \<and> r \<le> 127"
  have "nfd_string U (ToASCII U s) = ToASCII U s"
    using assms ToASCII_is_ascii [of U s] by (simp add: nfd_fixes_ascii_def)
  then have "ToASCII U (ToASCII U s) = string_of_runes (filter ?P (runes (ToASCII U s)))"
    by (simp add: ToASCII_filter [of U "ToASCII U s"])
  also have "\<dots> = string_of_runes (filter ?P (runes (nfd_string U s)))"
    by (simp add: runes_ToASCII)
  finally show "ToASCII U (ToASCII U s) = ToASCII U s"
    by (simp add: ToASCII_filter [of U s])
  show "runes (ToASCII U s) = filter ?P (runes (nfd_string U s))"
    by (rule runes_ToASCII)
qed

subsection \<open>The table fragment on ASCII\<close>

lemma latin1_nfd_ascii: "is_ascii s \<Longrightarrow> latin1_nfd s = s"
proof -
  assume a: "is_ascii s"
  then have "concat (map latin1_decomp (map byte_val s)) = map byte_val s"
    by (induction s) (simp_all add: is_ascii_def latin1_decomp_def)
  with a show ?thesis
    by (simp add: latin1_nfd_def runes_ascii string_of_runes_byte_val)
qed

lemma latin1_tables_ascii: "nfd_fixes_ascii latin1_tables" "no_ascii_Mn latin1_tables"
  by (simp_all add: nfd_fixes_ascii_def no_ascii_Mn_def latin1_tables_def latin1_nfd_ascii)

lemmas fold_eval_simps =
  ToASCII_def ToUpper_def ToLower_def strings_Map_def unicode_ToUpper_def unicode_ToLower_def
  string_of_runes_def encoderune_def shortReplacer_def maths_Min_def
  latin1_tables_def latin1_nfd_def latin1_decomp_def latin1_decomp_table_def
  latin1_upper_def latin1_lower_def

theorem ToASCII_idempotent_witness:
  "nfd_fixes_ascii latin1_tables
   \<and> ToASCII latin1_tables [CHR ''c'', CHR ''a'', CHR ''f'', CHR 0xC3, CHR 0xA9] = ''cafe''
   \<and> ToASCII latin1_tables (ToASCII latin1_tables [CHR ''c'', CHR ''a'', CHR ''f'', CHR 0xC3, CHR 0xA9])
       = ToASCII latin1_tables [CHR ''c'', CHR ''a'', CHR ''f'', CHR 0xC3, CHR 0xA9]"
  using ToASCII_idempotent [OF latin1_tables_ascii(1), of "[CHR ''c'', CHR ''a'', CHR ''f'', CHR 0xC3, CHR 0xA9]"]
    latin1_tables_ascii(1)
  by (simp add: eval_simps fold_eval_simps)

subsection \<open>The reserved characters\<close>










subsection \<open>The \<open>required\<close> flag\<close>












text \<open>
  The length that the code compares is \<open>len\<close>, the number of bytes. Five times
  \<open>U+00C9\<close> are five characters in ten bytes, and the flag is set for them whatever the
  tables; the statement above says nothing of such a name.
\<close>

lemma required_counts_bytes:
  "length (runes [CHR 0xC3, CHR 0x89, CHR 0xC3, CHR 0x89, CHR 0xC3, CHR 0x89, CHR 0xC3, CHR 0x89,
                  CHR 0xC3, CHR 0x89]) = 5
   \<and> fst (Gen8dot3 U [CHR 0xC3, CHR 0x89, CHR 0xC3, CHR 0x89, CHR 0xC3, CHR 0x89, CHR 0xC3,
                        CHR 0x89, CHR 0xC3, CHR 0x89] [])"
  by (simp add: Gen8dot3_def Let_def eval_simps)

subsection \<open>The short name of the Unicode-aware deriver\<close>

lemma valid_utf8_ascii: "is_ascii s \<Longrightarrow> valid_utf8 s"
  by (simp add: valid_utf8_def runes_ascii string_of_runes_byte_val)

lemma is_ascii_take: "is_ascii s \<Longrightarrow> is_ascii (take n s)"
  by (auto simp add: is_ascii_def list_all_iff dest: in_set_takeD)

text \<open>
  C10. The short name and the short extension of \<open>Gen8dot3Unicode\<close> are ASCII strings,
  hence valid UTF-8, of at most 6 and at most 3 bytes. The byte-oriented \<open>Gen8dot3\<close>
  takes bytes of the upper-cased name as they are: for five letters \<open>A\<close> and
  \<open>U+00C9\<close> the sixth byte kept is the first byte of the two-byte character.
\<close>

theorem Gen8dot3Unicode_short_ascii:
  "(case Gen8dot3Unicode U file ext of
      (r, n, e) \<Rightarrow>
        is_ascii n \<and> length n \<le> 6 \<and> valid_utf8 n \<and> is_ascii e \<and> length e \<le> 3 \<and> valid_utf8 e)
   \<and> Gen8dot3 latin1_tables
        [CHR ''A'', CHR ''A'', CHR ''A'', CHR ''A'', CHR ''A'', CHR 0xC3, CHR 0x89] []
       = (False, [CHR ''A'', CHR ''A'', CHR ''A'', CHR ''A'', CHR ''A'', CHR 0xC3], [])
   \<and> \<not> valid_utf8 [CHR ''A'', CHR ''A'', CHR ''A'', CHR ''A'', CHR ''A'', CHR 0xC3]"
proof -
  have a: "is_ascii (take k (ToASCII U s))" for k s
    by (rule is_ascii_take [OF ToASCII_is_ascii])
  have "case Gen8dot3Unicode U file ext of
      (r, n, e) \<Rightarrow>
        is_ascii n \<and> length n \<le> 6 \<and> valid_utf8 n \<and> is_ascii e \<and> length e \<le> 3 \<and> valid_utf8 e"
    by (simp add: Gen8dot3Unicode_def Let_def maths_Min_def a valid_utf8_ascii)
  moreover have "Gen8dot3 latin1_tables
        [CHR ''A'', CHR ''A'', CHR ''A'', CHR ''A'', CHR ''A'', CHR 0xC3, CHR 0x89] []
       = (False, [CHR ''A'', CHR ''A'', CHR ''A'', CHR ''A'', CHR ''A'', CHR 0xC3], [])"
    by (simp add: Gen8dot3_def eval_simps fold_eval_simps)
  moreover have "\<not> valid_utf8 [CHR ''A'', CHR ''A'', CHR ''A'', CHR ''A'', CHR ''A'', CHR 0xC3]"
    by (simp add: valid_utf8_def eval_simps fold_eval_simps)
  ultimately show ?thesis by blast
qed

theorem Gen8dot3Unicode_short_ascii_witness:
  "Gen8dot3Unicode latin1_tables
      [CHR ''A'', CHR ''A'', CHR ''A'', CHR ''A'', CHR ''A'', CHR 0xC3, CHR 0x89, CHR ''s''] ''html''
     = (True, ''AAAAAE'', ''HTM'')
   \<and> is_ascii ''AAAAAE'' \<and> length ''AAAAAE'' \<le> 6 \<and> valid_utf8 ''AAAAAE''
   \<and> is_ascii ''HTM'' \<and> length ''HTM'' \<le> 3 \<and> valid_utf8 ''HTM''"
  using Gen8dot3Unicode_short_ascii [of latin1_tables
      "[CHR ''A'', CHR ''A'', CHR ''A'', CHR ''A'', CHR ''A'', CHR 0xC3, CHR 0x89, CHR ''s'']" "''html''"]
  by (simp add: Gen8dot3Unicode_def eval_simps fold_eval_simps ToASCII_loop_filter)

section \<open>Properties of the wordlist pipeline\<close>

subsection \<open>The split into name and extension\<close>

lemma last_dot_decomp:
  assumes "CHR ''.'' \<in> set w"
  obtains a b where "w = a @ CHR ''.'' # b"
    and "takeWhile (\<lambda>c. c \<noteq> CHR ''.'') (rev w) = rev b"
    and "dropWhile (\<lambda>c. c \<noteq> CHR ''.'') (rev w) = CHR ''.'' # rev a"
proof -
  from split_list_last [OF assms] obtain a b
    where w: "w = a @ CHR ''.'' # b" and nb: "CHR ''.'' \<notin> set b" by blast
  have r: "rev w = rev b @ CHR ''.'' # rev a"
    by (simp add: w)
  have "takeWhile (\<lambda>c. c \<noteq> CHR ''.'') (rev b @ CHR ''.'' # rev a)
      = rev b @ takeWhile (\<lambda>c. c \<noteq> CHR ''.'') (CHR ''.'' # rev a)"
    by (rule takeWhile_append2) (use nb in auto)
  then have "takeWhile (\<lambda>c. c \<noteq> CHR ''.'') (rev w) = rev b"
    by (simp add: r)
  moreover have "dropWhile (\<lambda>c. c \<noteq> CHR ''.'') (rev b @ CHR ''.'' # rev a)
      = dropWhile (\<lambda>c. c \<noteq> CHR ''.'') (CHR ''.'' # rev a)"
    by (rule dropWhile_append2) (use nb in auto)
  then have "dropWhile (\<lambda>c. c \<noteq> CHR ''.'') (rev w) = CHR ''.'' # rev a"
    by (simp add: r)
  ultimately show thesis
    using w that by blast
qed

text \<open>
  C6 (amended). A word that begins with a dot is not split at all; any other word is
  split at its last dot, the name before it and the extension behind it, and a word
  without a dot has an empty extension.
\<close>

theorem split_ext_unless_leading_dot:
  "split_ext w = (if w \<noteq> [] \<and> hd w = CHR ''.'' then (w, []) else split_ext_spec w)"
proof (cases "CHR ''.'' \<in> set w")
  case False
  then have "CHR ''.'' \<notin> set (tl w)"
    by (cases w) auto
  with False show ?thesis
    by (cases w) (auto simp add: split_ext_def split_ext_spec_def LastIndex_dot_def)
next
  case True
  then obtain a b where w: "w = a @ CHR ''.'' # b"
    and tk: "takeWhile (\<lambda>c. c \<noteq> CHR ''.'') (rev w) = rev b"
    and dr: "dropWhile (\<lambda>c. c \<noteq> CHR ''.'') (rev w) = CHR ''.'' # rev a"
    by (rule last_dot_decomp)
  have p: "LastIndex_dot w = int (length a)"
    using True by (simp add: LastIndex_dot_def tk) (simp add: w)
  show ?thesis
  proof (cases a)
    case Nil
    then show ?thesis
      using p by (simp add: split_ext_def w Let_def)
  next
    case (Cons c a')
    have pos: "0 < LastIndex_dot w" and n: "nat (LastIndex_dot w) = length a"
      using p Cons by simp_all
    have c: "w ! 0 = c" "hd w = c" "w \<noteq> []" "CHR ''.'' \<in> set (tl w)"
      by (simp_all add: w Cons)
    have t: "take (length a) w = a" "drop (Suc (length a)) w = b"
      by (simp_all add: w)
    have "split_ext w = (if c \<noteq> CHR ''.'' then (a, b) else (w, []))"
      by (simp add: split_ext_def Let_def pos n c t)
    moreover have "split_ext_spec w = (a, b)"
      by (simp add: split_ext_spec_def c tk dr)
    ultimately show ?thesis
      by (simp add: c)
  qed
qed

lemmas pipeline_eval_simps =
  split_ext_def split_ext_spec_def LastIndex_dot_def decode_line_def PathUnescape_def
  sanitize_def path_Base_def paramRegex_first_def TrimSpace_def space_runes_def
  last_space_width_def ishex_def unhex_def

theorem split_ext_unless_leading_dot_witness:
  "split_ext ''foo.bar.baz'' = (''foo.bar'', ''baz'') \<and> split_ext ''.htaccess'' = (''.htaccess'', [])
   \<and> split_ext_spec ''foo.bar.baz'' = (''foo.bar'', ''baz'')"
  using split_ext_unless_leading_dot [of "''foo.bar.baz''"]
    split_ext_unless_leading_dot [of "''.htaccess''"]
  by (simp add: pipeline_eval_simps)

theorem split_ext_leading_dot_counterexample:
  "split_ext ''.foo.bar'' = (''.foo.bar'', []) \<and> split_ext_spec ''.foo.bar'' = (''.foo'', ''bar'')"
  by (simp add: pipeline_eval_simps)

subsection \<open>The scanner\<close>

lemma scan_lines_Nil: "scan_lines [] = ([], None)"
  by (simp add: scan_lines.simps [of "[]"])

lemma takeWhile_line:
  "CHR 0x0A \<notin> set l \<Longrightarrow> takeWhile (\<lambda>c. c \<noteq> CHR 0x0A) (l @ CHR 0x0A # rest) = l"
  by (auto simp add: takeWhile_tail takeWhile_eq_all_conv)

lemma scan_lines_line:
  assumes "CHR 0x0A \<notin> set l" "length l < MaxScanTokenSize"
  shows "scan_lines (l @ CHR 0x0A # rest)
           = (dropCR l # fst (scan_lines rest), snd (scan_lines rest))"
  using assms
  by (simp add: scan_lines.simps [of "l @ CHR 0x0A # rest"] takeWhile_line Let_def)

lemma scan_lines_too_long:
  assumes "CHR 0x0A \<notin> set l" "MaxScanTokenSize \<le> length l"
  shows "scan_lines (l @ CHR 0x0A # rest) = ([], Some ErrTooLong)"
  using assms
  by (simp add: scan_lines.simps [of "l @ CHR 0x0A # rest"] takeWhile_line Let_def)

lemma scan_lines_single:
  assumes "CHR 0x0A \<notin> set l" "length l < MaxScanTokenSize"
  shows "scan_lines (l @ [CHR 0x0A]) = ([dropCR l], None)"
  using scan_lines_line [OF assms, of "[]"] by (simp add: scan_lines_Nil)

subsection \<open>The gate\<close>

lemma ChecksumWords_loop_map_filter:
  "ChecksumWords_loop U variants split0 wc lines
     = wc @ List.map_filter (process_line U variants split0) lines"
  by (induction lines arbitrary: wc) (simp_all add: map_filter_simps split: option.split)

lemma process_line_cases:
  assumes "split_ext (sanitize split0 (decode_line line)) = (f, e)"
  shows "process_line U variants split0 line =
     (if fst (Gen8dot3Unicode U f e)
      then Some \<lparr>checksum = concat (variant_checksums U variants (sanitize split0 (decode_line line))),
                  filename = f, extension = e,
                  filename83 = fst (snd (Gen8dot3Unicode U f e)),
                  extension83 = snd (snd (Gen8dot3Unicode U f e))\<rparr>
      else None)"
  using assms by (simp add: process_line_def Let_def case_prod_unfold)

text \<open>
  Of the lines that the scanner yields, those for whose name and extension
  \<open>Gen8dot3Unicode\<close> returns \<open>required = true\<close> have a record, in the order of the input,
  and no other line has one.
\<close>

lemma records_of_scanned_lines:
  "map (\<lambda>r. (filename r, extension r)) (ChecksumWords U variants split0 fh)
     = filter (\<lambda>(f, e). fst (Gen8dot3Unicode U f e))
         (map (\<lambda>line. split_ext (sanitize split0 (decode_line line))) (fst (scan_lines fh)))"
proof -
  have "map (\<lambda>r. (filename r, extension r)) (List.map_filter (process_line U variants split0) lines)
     = filter (\<lambda>(f, e). fst (Gen8dot3Unicode U f e))
         (map (\<lambda>line. split_ext (sanitize split0 (decode_line line))) lines)" for lines
  proof (induction lines)
    case Nil
    show ?case by (simp add: map_filter_simps)
  next
    case (Cons line lines)
    obtain f e where fe: "split_ext (sanitize split0 (decode_line line)) = (f, e)"
      by (cases "split_ext (sanitize split0 (decode_line line))")
    show ?case
      using Cons by (simp add: map_filter_simps process_line_cases [OF fe] fe)
  qed
  then show ?thesis
    by (simp add: ChecksumWords_def ChecksumWords_loop_map_filter)
qed

lemma TrimRight_space_none: "last_space_width s = 0 \<Longrightarrow> TrimRight_space s = s"
  by (simp add: TrimRight_space.simps [of s])

lemma long_word:
  "split_ext (sanitize paramRegex_first (decode_line ''longfilename.html''))
     = (''longfilename'', ''html'')"
  "sanitize paramRegex_first (decode_line ''longfilename.html'') = ''longfilename.html''"
  "Gen8dot3Unicode latin1_tables ''longfilename'' ''html'' = (True, ''LONGFI'', ''HTM'')"
  "split_ext ''longfilename.html'' = (''longfilename'', ''html'')"
  by (simp_all add: pipeline_eval_simps eval_simps TrimRight_space_none
        Gen8dot3Unicode_def ToUpper_def shortReplacer_def
        maths_Min_def ToASCII_ascii_id [OF latin1_tables_ascii])

lemma overlong_line:
  "CHR 0x0A \<notin> set (replicate 65536 (CHR ''a''))"
  "MaxScanTokenSize \<le> length (replicate 65536 (CHR ''a''))"
  by (simp_all add: MaxScanTokenSize_def)

lemma short_line:
  "CHR 0x0A \<notin> set ''longfilename.html''"
  "length ''longfilename.html'' < MaxScanTokenSize"
  "dropCR ''longfilename.html'' = ''longfilename.html''"
  "CHR 0x0A \<notin> set ''50%25_discount.html''"
  "length ''50%25_discount.html'' < MaxScanTokenSize"
  "dropCR ''50%25_discount.html'' = ''50%25_discount.html''"
  by (simp_all add: MaxScanTokenSize_def dropCR_def)

text \<open>
  C7. A line of 64 KiB or more ends the loop: \<open>Scan\<close> returns false with
  \<open>ErrTooLong\<close>, the error is never read, and neither this line nor any line behind it
  is looked at. Of three lines, the first and the third \<open>longfilename.html\<close> and the
  second 65536 letters, only the first has a record, although the third, read on its
  own, has one: the deriver returns \<open>required = true\<close> for it.
\<close>

theorem overlong_line_ends_wordlist:
  "ChecksumWords U variants split0 (replicate 65536 (CHR ''a'') @ CHR 0x0A # rest) = []
   \<and> scan_lines (''longfilename.html'' @ CHR 0x0A # replicate 65536 (CHR ''a'')
           @ CHR 0x0A # ''longfilename.html'' @ [CHR 0x0A])
       = ([''longfilename.html''], Some ErrTooLong)
   \<and> map (\<lambda>r. (filename r, extension r))
        (ChecksumWords latin1_tables True paramRegex_first
           (''longfilename.html'' @ CHR 0x0A # replicate 65536 (CHR ''a'')
              @ CHR 0x0A # ''longfilename.html'' @ [CHR 0x0A]))
       = [(''longfilename'', ''html'')]
   \<and> map (\<lambda>r. (filename r, extension r))
        (ChecksumWords latin1_tables True paramRegex_first (''longfilename.html'' @ [CHR 0x0A]))
       = [(''longfilename'', ''html'')]"
proof -
  have stop: "scan_lines (replicate 65536 (CHR ''a'') @ CHR 0x0A # rest')
      = ([], Some ErrTooLong)" for rest'
    by (rule scan_lines_too_long [OF overlong_line])
  have three: "scan_lines (''longfilename.html'' @ CHR 0x0A # replicate 65536 (CHR ''a'')
           @ CHR 0x0A # ''longfilename.html'' @ [CHR 0x0A])
       = ([''longfilename.html''], Some ErrTooLong)"
    using scan_lines_line [OF short_line(1,2),
        of "replicate 65536 (CHR ''a'') @ CHR 0x0A # ''longfilename.html'' @ [CHR 0x0A]"]
    by (simp only: stop short_line(3) fst_conv snd_conv)
  have "ChecksumWords U variants split0 (replicate 65536 (CHR ''a'') @ CHR 0x0A # rest) = []"
    by (simp only: ChecksumWords_def stop fst_conv ChecksumWords_loop.simps)
  moreover have "map (\<lambda>r. (filename r, extension r))
        (ChecksumWords latin1_tables True paramRegex_first
           (''longfilename.html'' @ CHR 0x0A # replicate 65536 (CHR ''a'')
              @ CHR 0x0A # ''longfilename.html'' @ [CHR 0x0A]))
       = [(''longfilename'', ''html'')]"
    by (simp only: records_of_scanned_lines three fst_conv) (simp add: long_word)
  moreover have "map (\<lambda>r. (filename r, extension r))
        (ChecksumWords latin1_tables True paramRegex_first (''longfilename.html'' @ [CHR 0x0A]))
       = [(''longfilename'', ''html'')]"
    by (simp only: records_of_scanned_lines scan_lines_single [OF short_line(1,2)]
          short_line(3) fst_conv) (simp add: long_word)
  ultimately show ?thesis
    using three by (simp only: simp_thms)
qed

lemma ChecksumWords_single:
  assumes "CHR 0x0A \<notin> set l" "length l < MaxScanTokenSize"
  shows "ChecksumWords U variants split0 (l @ [CHR 0x0A]) =
     (case process_line U variants split0 (dropCR l) of None \<Rightarrow> [] | Some r \<Rightarrow> [r])"
  by (simp add: ChecksumWords_def scan_lines_single [OF assms] split: option.split)

subsection \<open>A malformed escape\<close>

lemma malformed_decode:
  "PathUnescape ''100%_report.html'' = ([], Some (EscapeError ''%_r''))"
  "PathUnescape ''50%25_discount.html'' = (''50%_discount.html'', None)"
  "PathUnescape ''50%_discount.html'' = ([], Some (EscapeError ''%_d''))"
  "PathUnescape [] = ([], None)"
  by (simp_all add: pipeline_eval_simps eval_simps)

lemma dot_word:
  "sanitize paramRegex_first [] = ''.''"
  "split_ext ''.'' = (''.'', [])"
  "Gen8dot3Unicode latin1_tables ''.'' [] = (True, [], [])"
  "GenerateVariants latin1_tables ''.'' = [''.'']"
  by (simp_all add: pipeline_eval_simps eval_simps TrimRight_space_none
        Gen8dot3Unicode_def GenerateVariants_def ToUpper_def ToLower_def shortReplacer_def
        nonAlphanum_delete_def maths_Min_def ToASCII_ascii_id [OF latin1_tables_ascii])

lemma dot_checksum: "Checksum ''.'' = ''F93F''"
  by code_simp

text \<open>
  C5. A line with a malformed percent-encoding is not kept as it is: \<open>PathUnescape\<close>
  returns the empty string with its error, the error is dropped, and the pipeline goes
  on with the empty string, which \<open>path.Base\<close> turns into a dot. So does a line whose
  first decoding is well-formed and whose second is not.
\<close>

theorem malformed_escape_loses_line:
  "decode_line ''100%_report.html'' = []
   \<and> decode_line ''50%25_discount.html'' = []
   \<and> ChecksumWords latin1_tables True paramRegex_first (''50%25_discount.html'' @ [CHR 0x0A])
       = [\<lparr>checksum = ''F93F'', filename = ''.'', extension = [], filename83 = [],
            extension83 = []\<rparr>]"
proof -
  have "ChecksumWords latin1_tables True paramRegex_first (''50%25_discount.html'' @ [CHR 0x0A])
      = (case process_line latin1_tables True paramRegex_first ''50%25_discount.html'' of
           None \<Rightarrow> [] | Some r \<Rightarrow> [r])"
    by (simp only: ChecksumWords_single [OF short_line(4,5)] short_line(6))
  also have "\<dots> = [\<lparr>checksum = ''F93F'', filename = ''.'', extension = [], filename83 = [],
            extension83 = []\<rparr>]"
    by (simp add: process_line_def decode_line_def malformed_decode dot_word
          variant_checksums_def dot_checksum)
  finally show ?thesis
    by (simp only: simp_thms) (simp add: decode_line_def malformed_decode)
qed

subsection \<open>Variant generation disabled\<close>

lemma long_checksum: "Checksum ''longfilename.html'' = ''93AF''"
  by code_simp

lemma process_line_no_variants:
  "process_line U False split0 line = Some r \<Longrightarrow> checksum r = []"
  by (auto simp add: process_line_def Let_def variant_checksums_def
        split: prod.splits if_splits)

lemma map_filter_no_variants:
  "list_all (\<lambda>r. checksum r = []) (List.map_filter (process_line U False split0) lines)"
  by (induction lines)
    (auto simp add: map_filter_simps process_line_no_variants split: option.split)

text \<open>
  C4. With variant generation disabled nothing is inserted into the map of checksums:
  every record has the empty string as its checksum. The line \<open>longfilename.html\<close> is
  accepted and its record carries no checksum, not the checksum \<open>93AF\<close> of the word.
\<close>

theorem no_variants_empty_checksum:
  "list_all (\<lambda>r. checksum r = []) (ChecksumWords U False split0 fh)
   \<and> ChecksumWords latin1_tables False paramRegex_first (''longfilename.html'' @ [CHR 0x0A])
       = [\<lparr>checksum = [], filename = ''longfilename'', extension = ''html'',
            filename83 = ''LONGFI'', extension83 = ''HTM''\<rparr>]
   \<and> Checksum ''longfilename.html'' = ''93AF''"
proof -
  have "list_all (\<lambda>r. checksum r = []) (ChecksumWords U False split0 fh)"
    by (simp add: ChecksumWords_def ChecksumWords_loop_map_filter map_filter_no_variants)
  moreover have "ChecksumWords latin1_tables False paramRegex_first
         (''longfilename.html'' @ [CHR 0x0A])
       = [\<lparr>checksum = [], filename = ''longfilename'', extension = ''html'',
            filename83 = ''LONGFI'', extension83 = ''HTM''\<rparr>]"
    by (simp only: ChecksumWords_single [OF short_line(1,2)] short_line(3))
      (simp add: process_line_cases [OF long_word(1)] long_word variant_checksums_def)
  ultimately show ?thesis
    by (simp only: long_checksum simp_thms)
qed

end
